theory Spec2Isabelle
  imports
    Main
    "HOL-Library.Char_ord"
    "HOL-Library.List_Lexorder"
    "HOL-Library.AList"
    "HOL-Library.Sublist"
begin

section \<open>The world of pokerok.py\<close>

text \<open>
  \<^verbatim>\<open>pokerok.py\<close> is a command dispatcher around \<^verbatim>\<open>hdiutil\<close>, \<^verbatim>\<open>spctl\<close> and
  \<^verbatim>\<open>codesign\<close>. Its functions are embedded as state-passing functions over a
  \<open>world\<close>: the file system, the list of external commands run so far, and the lines
  printed so far. An exception of the source is the \<open>Inl\<close> branch of the result.

  Modelling boundary, stated once:
  \<^item> a path is the list of its components from the root (\<^verbatim>\<open>/a/b\<close> is \<open>[''a'', ''b'']\<close>);
    relative paths are read from the root, and the components \<^verbatim>\<open>.\<close> and \<^verbatim>\<open>..\<close> are not
    interpreted;
  \<^item> a symbolic link holds the path it points at, and is followed when it is the last
    component of a path (as \<^verbatim>\<open>Path.exists\<close>, \<^verbatim>\<open>Path.is_dir\<close> and \<^verbatim>\<open>os.scandir\<close> do), not in
    the middle of one;
  \<^item> permissions, ownership, time stamps and special files are not modelled;
  \<^item> an external tool always starts and ends with an exit status (its behaviour is an
    arbitrary function of the world, a parameter of every definition);
  \<^item> strings are byte strings, so \<^verbatim>\<open>str.strip\<close> strips the ASCII white space only;
  \<^item> the Russian texts of the printed lines and of the exceptions are constructors of
    the datatypes \<open>line\<close> and \<open>reason\<close>, with the values they interpolate.
\<close>

subsection \<open>Exceptions and external processes\<close>

datatype reason =
    MountOrDeviceUndetermined
  | AppBundleNotFound

datatype error =
    CalledProcessError int "string list" string string
  | RuntimeError reason
  | InvalidFileException
  | FileNotFoundError
  | FileExistsError
  | NotADirectoryError
  | OSError
  | ShutilError

text \<open>The names the specification gives to the two \<^verbatim>\<open>RuntimeError\<close>s of the source.\<close>

abbreviation ResolutionError :: error where
  "ResolutionError \<equiv> RuntimeError MountOrDeviceUndetermined"

abbreviation NotFoundError :: error where
  "NotFoundError \<equiv> RuntimeError AppBundleNotFound"

record completed =
  returncode :: int
  stdout :: string
  stderr :: string

subsection \<open>Paths and the file system\<close>

type_synonym path = "string list"

datatype node =
    File string
  | Symlink path
  | Dir "(string \<times> node) list"

fun split_on :: "char \<Rightarrow> string \<Rightarrow> string list" where
  "split_on s [] = [[]]"
| "split_on s (c # cs) =
     (if c = s then [] # split_on s cs
      else (case split_on s cs of [] \<Rightarrow> [[c]] | w # ws \<Rightarrow> (c # w) # ws))"

text \<open>\<^verbatim>\<open>Path(s)\<close>: empty components and \<^verbatim>\<open>.\<close> are dropped, as pathlib does.\<close>

definition Path :: "string \<Rightarrow> path" where
  "Path s = filter (\<lambda>c. c \<noteq> [] \<and> c \<noteq> ''.'') (split_on (CHR ''/'') s)"

text \<open>\<^verbatim>\<open>str(p)\<close>.\<close>

definition path_str :: "path \<Rightarrow> string" where
  "path_str p = (if p = [] then ''/'' else concat (map (\<lambda>c. ''/'' @ c) p))"

text \<open>\<^verbatim>\<open>p.name\<close>: the last component, empty for the root.\<close>

definition path_name :: "path \<Rightarrow> string" where
  "path_name p = (if p = [] then [] else last p)"

text \<open>\<^verbatim>\<open>p / name\<close> for a single component; joining the empty name gives \<open>p\<close> back.\<close>

definition path_join :: "path \<Rightarrow> string \<Rightarrow> path" where
  "path_join p name = (if name = [] then p else p @ [name])"

text \<open>\<open>lookup\<close> is \<^verbatim>\<open>os.lstat\<close>: the entry a path names, links not followed.\<close>

fun lookup :: "node \<Rightarrow> path \<Rightarrow> node option" where
  "lookup n [] = Some n"
| "lookup (Dir cs) (c # p) = (case map_of cs c of None \<Rightarrow> None | Some n \<Rightarrow> lookup n p)"
| "lookup (File d) (c # p) = None"
| "lookup (Symlink t) (c # p) = None"

text \<open>
  \<open>resolve\<close> follows the links in the last component, at most \<open>MAXSYMLINKS\<close> of them
  (then the system call fails with \<^verbatim>\<open>ELOOP\<close>); \<open>stat\<close> is \<^verbatim>\<open>os.stat\<close>.
\<close>

fun resolve :: "nat \<Rightarrow> node \<Rightarrow> path \<Rightarrow> (path \<times> node) option" where
  "resolve 0 root p =
     (case lookup root p of
        None \<Rightarrow> None
      | Some (Symlink t) \<Rightarrow> None
      | Some n \<Rightarrow> Some (p, n))"
| "resolve (Suc k) root p =
     (case lookup root p of
        None \<Rightarrow> None
      | Some (Symlink t) \<Rightarrow> resolve k root t
      | Some n \<Rightarrow> Some (p, n))"

definition MAXSYMLINKS :: nat where
  "MAXSYMLINKS = 32"

definition stat :: "node \<Rightarrow> path \<Rightarrow> node option" where
  "stat root p = map_option snd (resolve MAXSYMLINKS root p)"

text \<open>\<^verbatim>\<open>p.exists()\<close> and \<^verbatim>\<open>p.is_dir()\<close>: both follow links, neither raises.\<close>

definition exists_path :: "node \<Rightarrow> path \<Rightarrow> bool" where
  "exists_path root p = (stat root p \<noteq> None)"

definition is_dir :: "node \<Rightarrow> path \<Rightarrow> bool" where
  "is_dir root p = (case stat root p of Some (Dir cs) \<Rightarrow> True | _ \<Rightarrow> False)"

text \<open>Writing and deleting one entry of a directory that exists.\<close>

fun put_entry :: "node \<Rightarrow> path \<Rightarrow> node \<Rightarrow> node" where
  "put_entry (Dir cs) [c] n = Dir (AList.update c n cs)"
| "put_entry (Dir cs) (c # d # p) n =
     (case map_of cs c of
        None \<Rightarrow> Dir cs
      | Some m \<Rightarrow> Dir (AList.update c (put_entry m (d # p) n) cs))"
| "put_entry r p n = r"

fun remove_entry :: "node \<Rightarrow> path \<Rightarrow> node" where
  "remove_entry (Dir cs) [c] = Dir (AList.delete c cs)"
| "remove_entry (Dir cs) (c # d # p) =
     (case map_of cs c of
        None \<Rightarrow> Dir cs
      | Some m \<Rightarrow> Dir (AList.update c (remove_entry m (d # p)) cs))"
| "remove_entry r p = r"

subsection \<open>The world, and programs over it\<close>

text \<open>
  The lines the subcommands print:
  \<^item> \<open>Contents mp\<close> is the heading \<^verbatim>\<open>cmd_list\<close> prints before the entries, \<open>Entry l\<close> is \<^verbatim>\<open>print("  ", line)\<close>;
  \<^item> \<open>WouldCopy src dest\<close> is the \<^verbatim>\<open>[DRY-RUN]\<close> line of \<^verbatim>\<open>copy_app\<close>;
  \<^item> \<open>Done dry out\<close> is the last line of \<^verbatim>\<open>cmd_copy\<close>;
  \<^item> \<open>Checking app\<close>, \<open>Gatekeeper ok msg\<close> and \<open>Codesign ok msg\<close> are the three lines of
    \<^verbatim>\<open>cmd_verify\<close>; \<open>ok\<close> prints as \<^verbatim>\<open>OK\<close> or \<^verbatim>\<open>FAIL\<close>.
\<close>

datatype line =
    Contents path
  | Entry string
  | WouldCopy path path
  | Done bool path
  | Checking path
  | Gatekeeper bool string
  | Codesign bool string

record world =
  fs :: node
  trace :: "string list list"
  out :: "line list"

type_synonym 'a prog = "world \<Rightarrow> (error + 'a) \<times> world"

text \<open>
  One system entity of the plist \<^verbatim>\<open>hdiutil attach -plist\<close> prints is a dictionary; the
  report is the top-level dictionary, of which only the arrays of dictionaries matter.
\<close>

type_synonym entity = "string \<rightharpoonup> string"

type_synonym plist = "string \<rightharpoonup> entity list"

text \<open>
  The environment: what an external command answers and does to the file system (it sees
  the whole world, so the same command may answer differently later), what
  \<^verbatim>\<open>plistlib.loads\<close> makes of a tool's output, and the name \<^verbatim>\<open>tempfile\<close> picks.
\<close>

record env =
  exec :: "world \<Rightarrow> string list \<Rightarrow> completed \<times> node"
  plist_loads :: "string \<Rightarrow> plist option"
  mkdtemp_name :: "world \<Rightarrow> path"

definition andthen :: "'a prog \<Rightarrow> ('a \<Rightarrow> 'b prog) \<Rightarrow> 'b prog" where
  "andthen m f w = (case m w of (Inl e, w') \<Rightarrow> (Inl e, w') | (Inr a, w') \<Rightarrow> f a w')"

definition return :: "'a \<Rightarrow> 'a prog" where
  "return a w = (Inr a, w)"

definition raise :: "error \<Rightarrow> 'a prog" where
  "raise e w = (Inl e, w)"

definition print :: "line \<Rightarrow> unit prog" where
  "print l w = (Inr (), w\<lparr>out := out w @ [l]\<rparr>)"

text \<open>
  \<^verbatim>\<open>try: body finally: fin\<close>: \<open>fin\<close> runs whatever \<open>body\<close> did; an exception of \<open>fin\<close>
  replaces the outcome of \<open>body\<close>.
\<close>

definition try_finally :: "'a prog \<Rightarrow> unit prog \<Rightarrow> 'a prog" where
  "try_finally body fin w =
     (case body w of (r, w1) \<Rightarrow>
        (case fin w1 of (Inl e, w2) \<Rightarrow> (Inl e, w2) | (Inr u, w2) \<Rightarrow> (r, w2)))"

text \<open>
  \<^verbatim>\<open>run(cmd, check)\<close>: the command is recorded in the trace; with \<^verbatim>\<open>check\<close>, a non-zero
  exit status raises \<^verbatim>\<open>CalledProcessError\<close>.
\<close>

definition run :: "env \<Rightarrow> string list \<Rightarrow> bool \<Rightarrow> completed prog" where
  "run e cmd check w =
     (case exec e w cmd of (res, fs') \<Rightarrow>
        (if check \<and> returncode res \<noteq> 0
         then Inl (CalledProcessError (returncode res) cmd (stdout res) (stderr res))
         else Inr res,
         w\<lparr>fs := fs', trace := trace w @ [cmd]\<rparr>))"


text \<open>A file-system operation that either fails and changes nothing, or succeeds.\<close>

definition fs_op :: "(node \<Rightarrow> error + node) \<Rightarrow> unit prog" where
  "fs_op f w = (case f (fs w) of Inl e \<Rightarrow> (Inl e, w) | Inr r \<Rightarrow> (Inr (), w\<lparr>fs := r\<rparr>))"

fun print_all :: "line list \<Rightarrow> unit prog" where
  "print_all [] = return ()"
| "print_all (l # ls) = andthen (print l) (\<lambda>u. print_all ls)"

subsection \<open>The library calls on the file system\<close>

text \<open>
  \<^verbatim>\<open>p.mkdir(parents=True, exist_ok=True)\<close>, following pathlib: \<^verbatim>\<open>os.mkdir\<close> first; when the
  parent is missing the parent is made the same way and \<^verbatim>\<open>os.mkdir\<close> is tried again;
  any other failure is forgiven exactly when \<open>p\<close> is a directory.
\<close>

function mkdir_p :: "node \<Rightarrow> path \<Rightarrow> error + node" where
  "mkdir_p root p =
     (case lookup root p of
        Some n \<Rightarrow> (if is_dir root p then Inr root else Inl FileExistsError)
      | None \<Rightarrow>
          (case lookup root (butlast p) of
             Some (Dir cs) \<Rightarrow> Inr (put_entry root p (Dir []))
           | Some (File d) \<Rightarrow> Inl NotADirectoryError
           | Some (Symlink t) \<Rightarrow> Inl NotADirectoryError
           | None \<Rightarrow>
               (case mkdir_p root (butlast p) of
                  Inl e \<Rightarrow> Inl e
                | Inr root' \<Rightarrow> Inr (put_entry root' p (Dir [])))))"
  by pat_completeness auto
termination
proof (relation "measure (\<lambda>(root, p). length p)")
  show "wf (measure (\<lambda>(root, p). length p))"
    by simp
next
  fix root :: node and p :: path
  assume "lookup root p = None"
  then have "p \<noteq> []"
    by (cases p) simp_all
  then show "((root, butlast p), (root, p)) \<in> measure (\<lambda>(root, p). length p)"
    by simp
qed

declare mkdir_p.simps [simp del]

text \<open>
  \<^verbatim>\<open>os.makedirs(p)\<close> as \<^verbatim>\<open>shutil.copytree\<close> calls it (\<^verbatim>\<open>exist_ok=False\<close>): an entry of any
  kind at \<open>p\<close> is \<^verbatim>\<open>FileExistsError\<close>.
\<close>

definition makedirs :: "node \<Rightarrow> path \<Rightarrow> error + node" where
  "makedirs root p =
     (case lookup root p of Some n \<Rightarrow> Inl FileExistsError | None \<Rightarrow> mkdir_p root p)"

text \<open>
  \<^verbatim>\<open>shutil.rmtree(p)\<close> refuses a symbolic link and removes a directory with all it holds.
  Removing the root is not modelled: it is an error here.
\<close>

definition rmtree :: "node \<Rightarrow> path \<Rightarrow> error + node" where
  "rmtree root p =
     (case lookup root p of
        None \<Rightarrow> Inl FileNotFoundError
      | Some (Symlink t) \<Rightarrow> Inl OSError
      | Some (File d) \<Rightarrow> Inl NotADirectoryError
      | Some (Dir cs) \<Rightarrow> (if p = [] then Inl OSError else Inr (remove_entry root p)))"

text \<open>\<^verbatim>\<open>p.unlink()\<close> removes a file or a link, and refuses a directory.\<close>

definition unlink :: "node \<Rightarrow> path \<Rightarrow> error + node" where
  "unlink root p =
     (case lookup root p of
        None \<Rightarrow> Inl FileNotFoundError
      | Some (Dir cs) \<Rightarrow> Inl OSError
      | Some (File d) \<Rightarrow> Inr (remove_entry root p)
      | Some (Symlink t) \<Rightarrow> Inr (remove_entry root p))"

text \<open>
  How \<^verbatim>\<open>shutil.copytree\<close> copies one entry of the tree, and the entries of a directory.
  A regular file is copied. A directory is copied entry by entry. A link is, with
  \<^verbatim>\<open>symlinks=True\<close>, created again as a link to the same target; with \<^verbatim>\<open>symlinks=False\<close>
  it is followed, and what it points at is copied in its place: a dangling link is an
  error. Following links can go on for ever (a link to a directory around it); the real
  call then ends by the recursion limit, which is the fuel here.
\<close>

definition recursion_limit :: nat where
  "recursion_limit = 1000"

fun copy_node :: "bool \<Rightarrow> nat \<Rightarrow> node \<Rightarrow> node \<Rightarrow> node option"
  and copy_entries ::
    "bool \<Rightarrow> nat \<Rightarrow> node \<Rightarrow> (string \<times> node) list \<Rightarrow> (string \<times> node) list option"
where
  "copy_node symlinks k root (File d) = Some (File d)"
| "copy_node symlinks k root (Symlink t) =
     (if symlinks then Some (Symlink t)
      else (case k of
              0 \<Rightarrow> None
            | Suc k' \<Rightarrow>
                (case resolve MAXSYMLINKS root t of
                   None \<Rightarrow> None
                 | Some (rs, n) \<Rightarrow> copy_node symlinks k' root n)))"
| "copy_node symlinks k root (Dir cs) = map_option Dir (copy_entries symlinks k root cs)"
| "copy_entries symlinks k root [] = Some []"
| "copy_entries symlinks k root ((name, c) # cs) =
     (case copy_node symlinks k root c of
        None \<Rightarrow> None
      | Some c' \<Rightarrow>
          (case copy_entries symlinks k root cs of
             None \<Rightarrow> None
           | Some cs' \<Rightarrow> Some ((name, c') # cs')))"

text \<open>
  \<^verbatim>\<open>shutil.copytree(src, dst, symlinks)\<close>: the entries of \<open>src\<close> are listed (a link at \<open>src\<close>
  itself is followed), \<open>dst\<close> is made with \<open>makedirs\<close>, and every entry is copied as above;
  an entry that cannot be copied ends the call in \<^verbatim>\<open>shutil.Error\<close>. Copying a directory
  into itself recurses until the path is too long and ends in \<^verbatim>\<open>shutil.Error\<close> too. What a
  failed call leaves on disk is not modelled.
\<close>

definition copytree :: "node \<Rightarrow> path \<Rightarrow> path \<Rightarrow> bool \<Rightarrow> error + node" where
  "copytree root src dst symlinks =
     (case resolve MAXSYMLINKS root src of
        None \<Rightarrow> Inl FileNotFoundError
      | Some (rs, File d) \<Rightarrow> Inl NotADirectoryError
      | Some (rs, Symlink t) \<Rightarrow> Inl FileNotFoundError
      | Some (rs, Dir cs) \<Rightarrow>
          (case makedirs root dst of
             Inl e \<Rightarrow> Inl e
           | Inr root' \<Rightarrow>
               (if prefix rs dst then Inl ShutilError
                else (case copy_entries symlinks recursion_limit root' cs of
                        None \<Rightarrow> Inl ShutilError
                      | Some cs' \<Rightarrow> Inr (put_entry root' dst (Dir cs'))))))"

text \<open>
  \<^verbatim>\<open>p.iterdir()\<close>: the children of a directory as paths, in the order the directory holds
  them (the order of \<^verbatim>\<open>os.listdir\<close>, which is arbitrary).
\<close>

definition iterdir :: "node \<Rightarrow> path \<Rightarrow> error + path list" where
  "iterdir root p =
     (case stat root p of
        None \<Rightarrow> Inl FileNotFoundError
      | Some (Dir cs) \<Rightarrow> Inr (map (\<lambda>(n, c). p @ [n]) cs)
      | Some (File d) \<Rightarrow> Inl NotADirectoryError
      | Some (Symlink t) \<Rightarrow> Inl NotADirectoryError)"

text \<open>
  \<^verbatim>\<open>p.rglob('*.app')\<close>. The pattern matches a name that ends in \<^verbatim>\<open>.app\<close>, whatever the
  entry is. The walk is the one of pathlib's recursive selector: the matches among the
  children of a directory first, then the same in each child that is a directory (a link
  to a directory is not entered), in the order the directory holds them. The start is
  never a match itself, and a start that is not a directory yields nothing. (From
  Python 3.13 on the directories below the first level are visited in another order; the
  matches among the children of the start come first in every version.)
\<close>

definition is_app :: "string \<Rightarrow> bool" where
  "is_app name = suffix ''.app'' name"

fun walk_app :: "path \<Rightarrow> node \<Rightarrow> path list" where
  "walk_app p (Dir cs) =
     map (\<lambda>(n, c). p @ [n]) (filter (\<lambda>(n, c). is_app n) cs)
     @ concat (map (\<lambda>(n, c). walk_app (p @ [n]) c) cs)"
| "walk_app p (File d) = []"
| "walk_app p (Symlink t) = []"

definition rglob_app :: "node \<Rightarrow> path \<Rightarrow> path list" where
  "rglob_app root p =
     (case stat root p of Some (Dir cs) \<Rightarrow> walk_app p (Dir cs) | _ \<Rightarrow> [])"

section \<open>The functions of pokerok.py\<close>

subsection \<open>hdiutil attach and detach\<close>

text \<open>\<^verbatim>\<open>ent.get('content-hint', '')\<close> and the truth value of an optional string.\<close>

definition get_or :: "entity \<Rightarrow> string \<Rightarrow> string \<Rightarrow> string" where
  "get_or ent k d = (case ent k of None \<Rightarrow> d | Some v \<Rightarrow> v)"

definition truthy :: "string option \<Rightarrow> bool" where
  "truthy v = (case v of None \<Rightarrow> False | Some s \<Rightarrow> s \<noteq> [])"

text \<open>
  The first loop of \<^verbatim>\<open>hdiutil_attach\<close> over the system entities: \<open>mnt\<close> is assigned at
  every entity with a mount point, \<open>device\<close> at every entity with a device entry whose
  content hint starts with \<^verbatim>\<open>Apple_HFS\<close>.
\<close>

fun scan_entities ::
  "entity list \<Rightarrow> path option \<times> string option \<Rightarrow> path option \<times> string option" where
  "scan_entities [] (mnt, device) = (mnt, device)"
| "scan_entities (ent # es) (mnt, device) =
     scan_entities es
       (case ent ''mount-point'' of None \<Rightarrow> mnt | Some m \<Rightarrow> Some (Path m),
        case ent ''dev-entry'' of
          None \<Rightarrow> device
        | Some d \<Rightarrow>
            (if prefix ''Apple_HFS'' (get_or ent ''content-hint'' []) then Some d
             else device))"

text \<open>The two fallback loops: the first entity with the key, then \<^verbatim>\<open>break\<close>.\<close>

fun first_mount_point :: "entity list \<Rightarrow> path option \<Rightarrow> path option" where
  "first_mount_point [] mnt = mnt"
| "first_mount_point (ent # es) mnt =
     (case ent ''mount-point'' of
        None \<Rightarrow> first_mount_point es mnt
      | Some m \<Rightarrow> Some (Path m))"

fun first_dev_entry :: "entity list \<Rightarrow> string option \<Rightarrow> string option" where
  "first_dev_entry [] device = device"
| "first_dev_entry (ent # es) device =
     (case ent ''dev-entry'' of
        None \<Rightarrow> first_dev_entry es device
      | Some d \<Rightarrow> Some d)"

text \<open>
  The body of \<^verbatim>\<open>hdiutil_attach\<close> from the parsed plist on. A \<^verbatim>\<open>Path\<close> is always true, so
  \<^verbatim>\<open>not mnt\<close> is \<open>mnt = None\<close>; a device is false when it is \<^verbatim>\<open>None\<close> or empty.
\<close>

definition attach_resolve :: "plist \<Rightarrow> error + path \<times> string" where
  "attach_resolve pl =
     (let es = (case pl ''system-entities'' of None \<Rightarrow> [] | Some l \<Rightarrow> l);
          (mnt0, device0) = scan_entities es (None, None);
          mnt = (if mnt0 = None then first_mount_point es mnt0 else mnt0);
          device = (if \<not> truthy device0 then first_dev_entry es device0 else device0)
      in case (mnt, device) of
           (Some m, Some d) \<Rightarrow> (if d \<noteq> [] then Inr (m, d) else Inl ResolutionError)
         | _ \<Rightarrow> Inl ResolutionError)"

definition attach_args :: "path \<Rightarrow> string list" where
  "attach_args dmg =
     [''hdiutil'', ''attach'', path_str dmg, ''-readonly'', ''-nobrowse'', ''-noverify'',
      ''-plist'']"

definition hdiutil_attach :: "env \<Rightarrow> path \<Rightarrow> path option \<Rightarrow> (path \<times> string) prog" where
  "hdiutil_attach e dmg mountpoint =
     andthen
       (case mountpoint of
          None \<Rightarrow> return (attach_args dmg)
        | Some m \<Rightarrow>
            andthen (fs_op (\<lambda>r. mkdir_p r m))
              (\<lambda>u. return (attach_args dmg @ [''-mountpoint'', path_str m])))
       (\<lambda>args. andthen (run e args True)
          (\<lambda>res. case plist_loads e (stdout res) of
                    None \<Rightarrow> raise InvalidFileException
                  | Some pl \<Rightarrow>
                      (case attach_resolve pl of
                         Inl err \<Rightarrow> raise err
                       | Inr r \<Rightarrow> return r)))"

definition detach_cmd :: "string \<Rightarrow> string list" where
  "detach_cmd target = [''hdiutil'', ''detach'', target]"

definition detach_force_cmd :: "string \<Rightarrow> string list" where
  "detach_force_cmd target = [''hdiutil'', ''detach'', ''-force'', target]"

text \<open>Only \<^verbatim>\<open>CalledProcessError\<close> is caught; the second \<^verbatim>\<open>run\<close> is outside any handler.\<close>

definition hdiutil_detach :: "env \<Rightarrow> string \<Rightarrow> unit prog" where
  "hdiutil_detach e target w =
     (case run e (detach_cmd target) True w of
        (Inr res, w1) \<Rightarrow> (Inr (), w1)
      | (Inl (CalledProcessError rc c so se), w1) \<Rightarrow>
          (case run e (detach_force_cmd target) True w1 of
             (Inr res, w2) \<Rightarrow> (Inr (), w2)
           | (Inl err, w2) \<Rightarrow> (Inl err, w2))
      | (Inl err, w1) \<Rightarrow> (Inl err, w1))"

subsection \<open>Looking into the mounted image\<close>

text \<open>
  \<^verbatim>\<open>sorted\<close> compares paths by their components, each as a string; the paths of one
  listing differ in the last component only.
\<close>

definition annotate :: "node \<Rightarrow> path \<Rightarrow> string" where
  "annotate root p = (if is_dir root p then ''[D]'' else ''[F]'') @ '' '' @ path_name p"

definition list_top :: "node \<Rightarrow> path \<Rightarrow> error + string list" where
  "list_top root mountpoint =
     (case iterdir root mountpoint of
        Inl e \<Rightarrow> Inl e
      | Inr ps \<Rightarrow> Inr (map (annotate root) (sort ps)))"

text \<open>The loop returns at the first path the generator yields.\<close>

definition find_app_bundle :: "node \<Rightarrow> path \<Rightarrow> path option" where
  "find_app_bundle root mountpoint =
     (case rglob_app root mountpoint of [] \<Rightarrow> None | p # ps \<Rightarrow> Some p)"

subsection \<open>Copying the bundle\<close>

definition copy_app :: "path \<Rightarrow> path \<Rightarrow> bool \<Rightarrow> path prog" where
  "copy_app app_src dest_dir dry_run =
     andthen (fs_op (\<lambda>r. mkdir_p r dest_dir))
       (\<lambda>u. let dest = path_join dest_dir (path_name app_src) in
          if dry_run then andthen (print (WouldCopy app_src dest)) (\<lambda>u. return dest)
          else
            andthen
              (\<lambda>w. if exists_path (fs w) dest
                   then (if is_dir (fs w) dest then fs_op (\<lambda>r. rmtree r dest) w
                         else fs_op (\<lambda>r. unlink r dest) w)
                   else return () w)
              (\<lambda>u. andthen (fs_op (\<lambda>r. copytree r app_src dest True)) (\<lambda>u. return dest)))"

subsection \<open>Gatekeeper and signature checks\<close>

definition is_space :: "char \<Rightarrow> bool" where
  "is_space c = (of_char c \<in> {9, 10, 11, 12, 13, 28, 29, 30, 31, 32 :: nat})"

definition strip :: "string \<Rightarrow> string" where
  "strip s = rev (dropWhile is_space (rev (dropWhile is_space s)))"

text \<open>\<^verbatim>\<open>a or b\<close> on strings: \<open>a\<close> unless it is empty.\<close>

definition str_or :: "string \<Rightarrow> string \<Rightarrow> string" where
  "str_or a b = (if a \<noteq> [] then a else b)"

definition spctl_cmd :: "path \<Rightarrow> string list" where
  "spctl_cmd app_path =
     [''spctl'', ''--assess'', ''--type'', ''execute'', ''--verbose'', path_str app_path]"

definition codesign_cmd :: "path \<Rightarrow> string list" where
  "codesign_cmd app_path =
     [''codesign'', ''--verify'', ''--deep'', ''--strict'', ''--verbose=2'', path_str app_path]"

definition spctl_assess :: "env \<Rightarrow> path \<Rightarrow> (bool \<times> string) prog" where
  "spctl_assess e app_path w =
     (case run e (spctl_cmd app_path) True w of
        (Inr res, w1) \<Rightarrow> (Inr (True, str_or (strip (stderr res)) (strip (stdout res))), w1)
      | (Inl (CalledProcessError rc c so se), w1) \<Rightarrow> (Inr (False, strip (str_or se so)), w1)
      | (Inl err, w1) \<Rightarrow> (Inl err, w1))"

definition codesign_verify :: "env \<Rightarrow> path \<Rightarrow> (bool \<times> string) prog" where
  "codesign_verify e app_path w =
     (case run e (codesign_cmd app_path) True w of
        (Inr res, w1) \<Rightarrow> (Inr (True, str_or (strip (stderr res)) (strip (stdout res))), w1)
      | (Inl (CalledProcessError rc c so se), w1) \<Rightarrow> (Inr (False, strip (str_or se so)), w1)
      | (Inl err, w1) \<Rightarrow> (Inl err, w1))"

subsection \<open>The subcommands list, copy and verify\<close>

text \<open>
  The parsed command line. \<open>arg_dest\<close> is \<^verbatim>\<open>Path(args.dest).expanduser()\<close>: the expansion
  of the home directory is not modelled.
\<close>

record args =
  arg_dmg :: path
  arg_dest :: path
  arg_dry_run :: bool

text \<open>
  \<^verbatim>\<open>with tempfile.TemporaryDirectory(...) as tmp\<close>: a new directory under a name the
  environment picks; on every way out it is removed with what it holds, and a directory
  already gone is not an error.
\<close>

definition mkdtemp :: "env \<Rightarrow> path prog" where
  "mkdtemp e w =
     (let p = mkdtemp_name e w in
      case lookup (fs w) p of
        Some n \<Rightarrow> (Inl FileExistsError, w)
      | None \<Rightarrow>
          (case lookup (fs w) (butlast p) of
             Some (Dir cs) \<Rightarrow> (Inr p, w\<lparr>fs := put_entry (fs w) p (Dir [])\<rparr>)
           | _ \<Rightarrow> (Inl FileNotFoundError, w)))"

definition cleanup :: "path \<Rightarrow> unit prog" where
  "cleanup p w =
     (case lookup (fs w) p of
        Some (Dir cs) \<Rightarrow> (Inr (), w\<lparr>fs := remove_entry (fs w) p\<rparr>)
      | _ \<Rightarrow> (Inr (), w))"

definition with_tmpdir :: "env \<Rightarrow> (path \<Rightarrow> 'a prog) \<Rightarrow> 'a prog" where
  "with_tmpdir e body = andthen (mkdtemp e) (\<lambda>tmp. try_finally (body tmp) (cleanup tmp))"

text \<open>
  Each subcommand is \<^verbatim>\<open>with TemporaryDirectory: attach; try: body finally: detach\<close>.
  The three \<^verbatim>\<open>try\<close> blocks are named, so that statements can speak of them.
\<close>

definition list_body :: "path \<Rightarrow> unit prog" where
  "list_body mp =
     andthen (print (Contents mp)) (\<lambda>u.
       andthen (\<lambda>w. (list_top (fs w) mp, w)) (\<lambda>ls. print_all (map Entry ls)))"

definition cmd_list :: "env \<Rightarrow> args \<Rightarrow> unit prog" where
  "cmd_list e a =
     with_tmpdir e (\<lambda>tmp.
       andthen (hdiutil_attach e (arg_dmg a) (Some tmp)) (\<lambda>(mp, dev).
         try_finally (list_body mp) (hdiutil_detach e dev)))"

definition copy_body :: "args \<Rightarrow> path \<Rightarrow> unit prog" where
  "copy_body a mp =
     andthen (\<lambda>w. (Inr (find_app_bundle (fs w) mp), w)) (\<lambda>app.
       case app of
         None \<Rightarrow> raise NotFoundError
       | Some ap \<Rightarrow>
           andthen (copy_app ap (arg_dest a) (arg_dry_run a)) (\<lambda>out.
             print (Done (arg_dry_run a) out)))"

definition cmd_copy :: "env \<Rightarrow> args \<Rightarrow> unit prog" where
  "cmd_copy e a =
     with_tmpdir e (\<lambda>tmp.
       andthen (hdiutil_attach e (arg_dmg a) (Some tmp)) (\<lambda>(mp, dev).
         try_finally (copy_body a mp) (hdiutil_detach e dev)))"

definition verify_body :: "env \<Rightarrow> path \<Rightarrow> unit prog" where
  "verify_body e mp =
     andthen (\<lambda>w. (Inr (find_app_bundle (fs w) mp), w)) (\<lambda>app.
       case app of
         None \<Rightarrow> raise NotFoundError
       | Some ap \<Rightarrow>
           andthen (print (Checking ap)) (\<lambda>u.
             andthen (spctl_assess e ap) (\<lambda>(ok_gate, msg_gate).
               andthen (print (Gatekeeper ok_gate msg_gate)) (\<lambda>u.
                 andthen (codesign_verify e ap) (\<lambda>(ok_sign, msg_sign).
                   print (Codesign ok_sign msg_sign))))))"

definition cmd_verify :: "env \<Rightarrow> args \<Rightarrow> unit prog" where
  "cmd_verify e a =
     with_tmpdir e (\<lambda>tmp.
       andthen (hdiutil_attach e (arg_dmg a) (Some tmp)) (\<lambda>(mp, dev).
         try_finally (verify_body e mp) (hdiutil_detach e dev)))"

section \<open>Notions the statements use\<close>

subsection \<open>The mount report\<close>

definition entities :: "plist \<Rightarrow> entity list" where
  "entities pl = (case pl ''system-entities'' of None \<Rightarrow> [] | Some l \<Rightarrow> l)"

text \<open>The content hint of an entity names a standard (HFS) volume.\<close>

definition hfs_hint :: "entity \<Rightarrow> bool" where
  "hfs_hint ent = prefix ''Apple_HFS'' (get_or ent ''content-hint'' [])"

text \<open>The mount point of the last entity that has one.\<close>

definition last_mount_point :: "entity list \<Rightarrow> path option" where
  "last_mount_point es =
     (case find (\<lambda>ent. ent ''mount-point'' \<noteq> None) (rev es) of
        None \<Rightarrow> None
      | Some ent \<Rightarrow> map_option Path (ent ''mount-point''))"

text \<open>The device entry of the last entity that has one and an HFS content hint.\<close>

definition last_hfs_device :: "entity list \<Rightarrow> string option" where
  "last_hfs_device es =
     (case find (\<lambda>ent. ent ''dev-entry'' \<noteq> None \<and> hfs_hint ent) (rev es) of
        None \<Rightarrow> None
      | Some ent \<Rightarrow> ent ''dev-entry'')"

text \<open>The device entry of the first entity that has one.\<close>

definition first_device :: "entity list \<Rightarrow> string option" where
  "first_device es =
     (case find (\<lambda>ent. ent ''dev-entry'' \<noteq> None) es of
        None \<Rightarrow> None
      | Some ent \<Rightarrow> ent ''dev-entry'')"

text \<open>
  The device after the fallback: the HFS one when it is not empty, else the first device
  entry of the report when there is one.
\<close>

definition selected_device :: "entity list \<Rightarrow> string option" where
  "selected_device es =
     (if truthy (last_hfs_device es) then last_hfs_device es
      else if first_device es = None then last_hfs_device es
      else first_device es)"

text \<open>
  The mount point as the specification words it: that of the entity whose content hint
  names a standard volume, and only when no entity has such a hint that of the first
  entity with a mount point.
\<close>

definition claimed_mount_point :: "entity list \<Rightarrow> path option" where
  "claimed_mount_point es =
     (case find hfs_hint es of
        Some ent \<Rightarrow> map_option Path (ent ''mount-point'')
      | None \<Rightarrow>
          (case find (\<lambda>ent. ent ''mount-point'' \<noteq> None) es of
             None \<Rightarrow> None
           | Some ent \<Rightarrow> map_option Path (ent ''mount-point'')))"

text \<open>
  The steps of \<^verbatim>\<open>hdiutil_attach\<close> before the report is read: the world once the mount
  point is made, the command line, and the report when the tool succeeded and its output
  parsed.
\<close>

definition prepared :: "world \<Rightarrow> path option \<Rightarrow> error + world" where
  "prepared w mountpoint =
     (case mountpoint of
        None \<Rightarrow> Inr w
      | Some m \<Rightarrow> (case mkdir_p (fs w) m of Inl err \<Rightarrow> Inl err | Inr f \<Rightarrow> Inr (w\<lparr>fs := f\<rparr>)))"

definition attach_argv :: "path \<Rightarrow> path option \<Rightarrow> string list" where
  "attach_argv dmg mountpoint =
     attach_args dmg
     @ (case mountpoint of None \<Rightarrow> [] | Some m \<Rightarrow> [''-mountpoint'', path_str m])"

definition attach_report :: "env \<Rightarrow> path \<Rightarrow> path option \<Rightarrow> world \<Rightarrow> plist option" where
  "attach_report e dmg mountpoint w =
     (case prepared w mountpoint of
        Inl err \<Rightarrow> None
      | Inr w1 \<Rightarrow>
          (case run e (attach_argv dmg mountpoint) True w1 of
             (Inl err, w2) \<Rightarrow> None
           | (Inr res, w2) \<Rightarrow> plist_loads e (stdout res)))"

subsection \<open>The two attempts of a detach\<close>

definition first_result :: "env \<Rightarrow> string \<Rightarrow> world \<Rightarrow> completed" where
  "first_result e t w = fst (exec e w (detach_cmd t))"

definition after_first :: "env \<Rightarrow> string \<Rightarrow> world \<Rightarrow> world" where
  "after_first e t w =
     w\<lparr>fs := snd (exec e w (detach_cmd t)), trace := trace w @ [detach_cmd t]\<rparr>"

definition forced_result :: "env \<Rightarrow> string \<Rightarrow> world \<Rightarrow> completed" where
  "forced_result e t w = fst (exec e (after_first e t w) (detach_force_cmd t))"

subsection \<open>Sessions and checks\<close>

text \<open>
  The message a check returns, the world once a command has run or a line is printed,
  and how a session ends: after the \<^verbatim>\<open>try\<close> block left the world \<open>w3\<close> with the outcome
  \<open>r\<close>, the next command is the detach of the device (then, at most, the forced one), and
  the subcommand ends as the block did unless the detach itself raised.
\<close>

definition diagnostic :: "completed \<Rightarrow> string" where
  "diagnostic r =
     (if returncode r = 0 then str_or (strip (stderr r)) (strip (stdout r))
      else strip (str_or (stderr r) (stdout r)))"

definition ran :: "env \<Rightarrow> string list \<Rightarrow> world \<Rightarrow> world" where
  "ran e cmd w = w\<lparr>fs := snd (exec e w cmd), trace := trace w @ [cmd]\<rparr>"

definition printed :: "line \<Rightarrow> world \<Rightarrow> world" where
  "printed l w = w\<lparr>out := out w @ [l]\<rparr>"

definition session_ends ::
  "env \<Rightarrow> string \<Rightarrow> (error + unit) \<times> world \<Rightarrow> (error + unit) \<times> world \<Rightarrow> bool" where
  "session_ends e dev body_outcome outcome =
     (case body_outcome of (r, w3) \<Rightarrow>
        trace (snd outcome) =
          trace w3 @ detach_cmd dev
                     # (if returncode (first_result e dev w3) = 0 then []
                        else [detach_force_cmd dev])
        \<and> fst outcome = (case fst (hdiutil_detach e dev w3) of Inl err \<Rightarrow> Inl err | Inr u \<Rightarrow> r))"

text \<open>
  The checks of \<^verbatim>\<open>cmd_verify\<close> on the bundle \<open>ap\<close>, started in the world \<open>w\<close>: the world and
  the result of each tool, and the three lines printed.
\<close>

definition gate_world :: "path \<Rightarrow> world \<Rightarrow> world" where
  "gate_world ap w = printed (Checking ap) w"

definition gate_result :: "env \<Rightarrow> path \<Rightarrow> world \<Rightarrow> completed" where
  "gate_result e ap w = fst (exec e (gate_world ap w) (spctl_cmd ap))"

definition sign_world :: "env \<Rightarrow> path \<Rightarrow> world \<Rightarrow> world" where
  "sign_world e ap w =
     printed (Gatekeeper (returncode (gate_result e ap w) = 0) (diagnostic (gate_result e ap w)))
       (ran e (spctl_cmd ap) (gate_world ap w))"

definition sign_result :: "env \<Rightarrow> path \<Rightarrow> world \<Rightarrow> completed" where
  "sign_result e ap w = fst (exec e (sign_world e ap w) (codesign_cmd ap))"

definition verify_lines :: "env \<Rightarrow> path \<Rightarrow> world \<Rightarrow> line list" where
  "verify_lines e ap w =
     [Checking ap,
      Gatekeeper (returncode (gate_result e ap w) = 0) (diagnostic (gate_result e ap w)),
      Codesign (returncode (sign_result e ap w) = 0) (diagnostic (sign_result e ap w))]"

subsection \<open>Well-formed file systems\<close>




text \<open>The entry is a symbolic link.\<close>

definition is_symlink :: "node \<Rightarrow> bool" where
  "is_symlink n = (case n of Symlink t \<Rightarrow> True | _ \<Rightarrow> False)"

subsection \<open>Concrete worlds\<close>

text \<open>
  A report of an image with two mounted volumes, the first one HFS; and a small Mac: a
  host with \<^verbatim>\<open>/Applications\<close> and \<^verbatim>\<open>/tmp\<close>, an image that holds \<^verbatim>\<open>Foo.app\<close> and the usual
  link to \<^verbatim>\<open>/Applications\<close>, and tools that mount the image at the temporary directory,
  detach it, reject the bundle at the Gatekeeper check and accept its signature.
\<close>

definition hfs_entity :: entity where
  "hfs_entity = [''dev-entry'' \<mapsto> ''/dev/disk4s1'', ''content-hint'' \<mapsto> ''Apple_HFS'',
                 ''mount-point'' \<mapsto> ''/Volumes/A'']"

definition fat_entity :: entity where
  "fat_entity = [''dev-entry'' \<mapsto> ''/dev/disk4s2'', ''content-hint'' \<mapsto> ''DOS_FAT_32'',
                 ''mount-point'' \<mapsto> ''/Volumes/B'']"

definition two_volumes :: plist where
  "two_volumes = [''system-entities'' \<mapsto> [hfs_entity, fat_entity]]"

definition image_tree :: node where
  "image_tree =
     Dir [(''Foo.app'', Dir [(''Info.plist'', File ''plist''), (''Current'', Symlink [''A''])]),
          (''Applications'', Symlink [''Applications''])]"

definition host_tree :: node where
  "host_tree = Dir [(''Applications'', Dir []), (''tmp'', Dir [])]"

definition tmp_mnt :: path where
  "tmp_mnt = [''tmp'', ''pokerok_mnt_1'']"

definition mount_report :: plist where
  "mount_report =
     [''system-entities'' \<mapsto>
        [[''dev-entry'' \<mapsto> ''/dev/disk4'', ''content-hint'' \<mapsto> ''GUID_partition_scheme''],
         [''dev-entry'' \<mapsto> ''/dev/disk4s1'', ''content-hint'' \<mapsto> ''Apple_HFS'',
          ''mount-point'' \<mapsto> ''/tmp/pokerok_mnt_1'']]]"

definition ok_result :: "string \<Rightarrow> completed" where
  "ok_result s = \<lparr>returncode = 0, stdout = s, stderr = []\<rparr>"

definition rejected :: completed where
  "rejected = \<lparr>returncode = 3, stdout = [], stderr = ''rejected'' @ [CHR 0x0A]\<rparr>"

definition mac_exec :: "node \<Rightarrow> world \<Rightarrow> string list \<Rightarrow> completed \<times> node" where
  "mac_exec img w cmd =
     (if take 2 cmd = [''hdiutil'', ''attach'']
      then (ok_result ''report'', put_entry (fs w) tmp_mnt img)
      else if take 2 cmd = [''hdiutil'', ''detach'']
      then (ok_result [], put_entry (fs w) tmp_mnt (Dir []))
      else if take 1 cmd = [''spctl''] then (rejected, fs w)
      else (ok_result ''valid on disk'', fs w))"

definition mac :: "node \<Rightarrow> env" where
  "mac img =
     \<lparr>exec = mac_exec img,
      plist_loads = (\<lambda>s. if s = ''report'' then Some mount_report else None),
      mkdtemp_name = (\<lambda>w. tmp_mnt)\<rparr>"

definition start :: world where
  "start = \<lparr>fs = host_tree, trace = [], out = []\<rparr>"

definition dmg_path :: path where
  "dmg_path = [''pokerok.dmg'']"

text \<open>The worlds of a run on the small Mac: after \<^verbatim>\<open>mkdtemp\<close>, and after the attach.\<close>

definition empty_mac_args :: args where
  "empty_mac_args = \<lparr>arg_dmg = dmg_path, arg_dest = [''Applications''], arg_dry_run = False\<rparr>"

definition start_tmp :: world where
  "start_tmp =
     \<lparr>fs = Dir [(''Applications'', Dir []), (''tmp'', Dir [(''pokerok_mnt_1'', Dir [])])],
      trace = [], out = []\<rparr>"

definition attached :: "node \<Rightarrow> world" where
  "attached img =
     \<lparr>fs = Dir [(''Applications'', Dir []), (''tmp'', Dir [(''pokerok_mnt_1'', img)])],
      trace = [attach_argv dmg_path (Some tmp_mnt)], out = []\<rparr>"

definition foo_app :: path where
  "foo_app = tmp_mnt @ [''Foo.app'']"

text \<open>A mount point with the file \<^verbatim>\<open>B\<close> and the directory \<^verbatim>\<open>A\<close>, listed in this order.\<close>

definition ab_tree :: node where
  "ab_tree = Dir [(''mnt'', Dir [(''B'', File ''b''), (''A'', Dir [])])]"



text \<open>The small Mac with the image mounted and an older \<^verbatim>\<open>Foo.app\<close> installed.\<close>

definition stale_mac :: world where
  "stale_mac =
     \<lparr>fs = Dir [(''Applications'', Dir [(''Foo.app'', Dir [(''old.txt'', File ''stale'')])]),
                (''tmp'', Dir [(''pokerok_mnt_1'', image_tree)])],
      trace = [], out = []\<rparr>"

text \<open>
  The same Mac where \<^verbatim>\<open>/Applications/Foo.app\<close> is a link to a directory on another volume,
  and where it is a link to nothing.
\<close>

definition linked_mac :: world where
  "linked_mac =
     \<lparr>fs = Dir [(''Applications'', Dir [(''Foo.app'', Symlink [''Volumes'', ''Ext'', ''Foo.app''])]),
                (''Volumes'', Dir [(''Ext'', Dir [(''Foo.app'', Dir [(''old.txt'', File ''stale'')])])]),
                (''tmp'', Dir [(''pokerok_mnt_1'', image_tree)])],
      trace = [], out = []\<rparr>"

definition dangling_mac :: world where
  "dangling_mac =
     \<lparr>fs = Dir [(''Applications'', Dir [(''Foo.app'', Symlink [''Volumes'', ''Gone''])]),
                (''tmp'', Dir [(''pokerok_mnt_1'', image_tree)])],
      trace = [], out = []\<rparr>"

section \<open>Properties\<close>

subsection \<open>Programs\<close>

lemma andthen_InrD:
  "andthen m f w = (Inr b, w') \<Longrightarrow> \<exists>a w1. m w = (Inr a, w1) \<and> f a w1 = (Inr b, w')"
  by (auto simp: andthen_def split: prod.splits sum.splits)

lemma return_eq: "return a w = (r, w') \<longleftrightarrow> r = Inr a \<and> w' = w"
  by (auto simp: return_def)

lemma run_eq:
  "run e cmd True w =
     (if returncode (fst (exec e w cmd)) = 0 then Inr (fst (exec e w cmd))
      else Inl (CalledProcessError (returncode (fst (exec e w cmd))) cmd
                  (stdout (fst (exec e w cmd))) (stderr (fst (exec e w cmd)))),
      w\<lparr>fs := snd (exec e w cmd), trace := trace w @ [cmd]\<rparr>)"
  by (simp add: run_def split: prod.splits)

subsection \<open>Detach\<close>

text \<open>
  C6. \<^verbatim>\<open>hdiutil_detach\<close> runs the plain detach first. When it exits with status 0 nothing
  else is run and the call returns. When it exits with another status the forced detach
  is run, once; the call returns when that one exits with 0, and raises its
  \<^verbatim>\<open>CalledProcessError\<close> otherwise. In no case is a third command run.
\<close>

theorem hdiutil_detach_retries_once:
  "trace (snd (hdiutil_detach e t w)) =
     trace w @ (if returncode (first_result e t w) = 0 then [detach_cmd t]
                else [detach_cmd t, detach_force_cmd t])
   \<and> fst (hdiutil_detach e t w) =
     (if returncode (first_result e t w) = 0 then Inr ()
      else if returncode (forced_result e t w) = 0 then Inr ()
      else Inl (CalledProcessError (returncode (forced_result e t w)) (detach_force_cmd t)
                  (stdout (forced_result e t w)) (stderr (forced_result e t w))))"
  by (simp add: hdiutil_detach_def run_eq first_result_def after_first_def forced_result_def)

subsection \<open>Attach\<close>

lemma find_Some_holds: "find P xs = Some x \<Longrightarrow> P x \<and> x \<in> set xs"
  by (induction xs) (auto split: if_splits)

lemma scan_entities_snoc:
  "scan_entities (es @ [ent]) acc =
     (case scan_entities es acc of (mnt, device) \<Rightarrow>
        (case ent ''mount-point'' of None \<Rightarrow> mnt | Some m \<Rightarrow> Some (Path m),
         case ent ''dev-entry'' of
           None \<Rightarrow> device
         | Some d \<Rightarrow> (if hfs_hint ent then Some d else device)))"
proof (induction es arbitrary: acc)
  case Nil
  show ?case by (cases acc) (simp add: hfs_hint_def split: option.splits)
next
  case (Cons a es)
  show ?case by (cases acc) (simp add: Cons.IH)
qed

lemma scan_entities_last:
  "scan_entities es (None, None) = (last_mount_point es, last_hfs_device es)"
proof (induction es rule: rev_induct)
  case Nil
  show ?case by (simp add: last_mount_point_def last_hfs_device_def)
next
  case (snoc ent es)
  show ?case
    by (auto simp: scan_entities_snoc snoc.IH last_mount_point_def last_hfs_device_def
        split: option.splits)
qed

lemma last_mount_point_None:
  "last_mount_point es = None \<longleftrightarrow> (\<forall>ent\<in>set es. ent ''mount-point'' = None)"
proof (cases "find (\<lambda>ent. ent ''mount-point'' \<noteq> None) (rev es)")
  case None
  have "\<forall>ent\<in>set es. ent ''mount-point'' = None"
    using None unfolding find_None_iff by auto
  moreover have "last_mount_point es = None"
    unfolding last_mount_point_def None by simp
  ultimately show ?thesis by simp
next
  case (Some ent)
  have "ent ''mount-point'' \<noteq> None" and "ent \<in> set es"
    using find_Some_holds[OF Some] by simp_all
  moreover have "last_mount_point es = map_option Path (ent ''mount-point'')"
    unfolding last_mount_point_def Some by simp
  ultimately show ?thesis by auto
qed

lemma first_mount_point_absent:
  "\<forall>ent\<in>set es. ent ''mount-point'' = None \<Longrightarrow> first_mount_point es mnt = mnt"
  by (induction es) simp_all

lemma first_mount_point_None:
  "last_mount_point es = None \<Longrightarrow> first_mount_point es None = None"
  by (simp add: last_mount_point_None first_mount_point_absent)

lemma first_dev_entry_find:
  "first_dev_entry es d = (if first_device es = None then d else first_device es)"
proof (induction es)
  case Nil
  show ?case by (simp add: first_device_def)
next
  case (Cons a es)
  show ?case
  proof (cases "a ''dev-entry''")
    case None
    then have "first_device (a # es) = first_device es"
      by (simp add: first_device_def)
    with None Cons.IH show ?thesis by simp
  next
    case (Some v)
    then show ?thesis by (simp add: first_device_def)
  qed
qed

lemma attach_resolve_char:
  "attach_resolve pl =
     (case (last_mount_point (entities pl), selected_device (entities pl)) of
        (Some m, Some d) \<Rightarrow> (if d \<noteq> [] then Inr (m, d) else Inl ResolutionError)
      | _ \<Rightarrow> Inl ResolutionError)"
proof -
  have mnt: "(if last_mount_point es = None then first_mount_point es (last_mount_point es)
              else last_mount_point es) = last_mount_point es" for es
    by (simp add: first_mount_point_None)
  have dev: "(if \<not> truthy (last_hfs_device es) then first_dev_entry es (last_hfs_device es)
              else last_hfs_device es) = selected_device es" for es
    by (simp add: selected_device_def first_dev_entry_find)
  show ?thesis
    unfolding attach_resolve_def entities_def[symmetric] Let_def scan_entities_last
    by (simp only: prod.case mnt dev)
qed


lemma two_volumes_resolved:
  "attach_resolve two_volumes = Inr ([''Volumes'', ''B''], ''/dev/disk4s1'')"
  by code_simp

text \<open>
  C2 fails on the code. In a report with two mounted volumes of which the first is HFS,
  the mount point the specification describes is that of the HFS entity, \<^verbatim>\<open>/Volumes/A\<close>.
  The first loop of \<^verbatim>\<open>hdiutil_attach\<close> tests the content hint for the device only, so it
  returns \<^verbatim>\<open>/Volumes/B\<close>, the mount point of the last entity, with the device of the first.
\<close>

theorem attach_mount_point_not_from_hinted_entity:
  "attach_resolve two_volumes = Inr ([''Volumes'', ''B''], ''/dev/disk4s1'')
   \<and> claimed_mount_point (entities two_volumes) = Some [''Volumes'', ''A'']"
  by code_simp

lemma mkdir_p_errors:
  "mkdir_p root p = Inl err \<Longrightarrow> err = FileExistsError \<or> err = NotADirectoryError"
proof (induction root p rule: mkdir_p.induct)
  case (1 root p)
  from "1.prems" show ?case
    by (subst (asm) mkdir_p.simps)
       (auto split: option.splits node.splits sum.splits if_splits dest: "1.IH")
qed

lemma hdiutil_attach_unfold:
  "hdiutil_attach e dmg mountpoint w =
     (case prepared w mountpoint of
        Inl err \<Rightarrow> (Inl err, w)
      | Inr w1 \<Rightarrow>
          (case run e (attach_argv dmg mountpoint) True w1 of
             (Inl err, w2) \<Rightarrow> (Inl err, w2)
           | (Inr res, w2) \<Rightarrow>
               (case plist_loads e (stdout res) of
                  None \<Rightarrow> (Inl InvalidFileException, w2)
                | Some pl \<Rightarrow>
                    (case attach_resolve pl of
                       Inl err \<Rightarrow> (Inl err, w2)
                     | Inr r \<Rightarrow> (Inr r, w2)))))"
proof (cases mountpoint)
  case None
  show ?thesis
    by (simp add: None hdiutil_attach_def prepared_def attach_argv_def andthen_def return_def
        raise_def split: prod.splits sum.splits option.splits)
next
  case (Some m)
  show ?thesis
  proof (cases "mkdir_p (fs w) m")
    case (Inl err)
    then show ?thesis
      by (simp add: Some hdiutil_attach_def prepared_def andthen_def fs_op_def)
  next
    case (Inr f)
    then show ?thesis
      by (simp add: Some hdiutil_attach_def prepared_def attach_argv_def andthen_def
          fs_op_def return_def raise_def split: prod.splits sum.splits option.splits)
  qed
qed

text \<open>
  C5. \<^verbatim>\<open>hdiutil_attach\<close> raises the resolution error exactly when the tool gave a report
  and, after the fallback, the report determines no mount point or no device (none, or
  an empty one); when the report determines both, the call returns them as a pair.
\<close>

theorem hdiutil_attach_resolution_error:
  "(fst (hdiutil_attach e dmg mountpoint w) = Inl ResolutionError \<longleftrightarrow>
      (case attach_report e dmg mountpoint w of
         None \<Rightarrow> False
       | Some pl \<Rightarrow> last_mount_point (entities pl) = None
                    \<or> \<not> truthy (selected_device (entities pl))))
   \<and> (attach_report e dmg mountpoint w = Some pl \<and>
        last_mount_point (entities pl) = Some m \<and>
        selected_device (entities pl) = Some d \<and> d \<noteq> [] \<longrightarrow>
        fst (hdiutil_attach e dmg mountpoint w) = Inr (m, d))"
proof (cases "prepared w mountpoint")
  case (Inl err)
  then have "err \<noteq> ResolutionError"
    by (auto simp: prepared_def split: option.splits sum.splits dest: mkdir_p_errors)
  with Inl show ?thesis
    by (simp add: hdiutil_attach_unfold attach_report_def)
next
  case (Inr w1)
  obtain r w2 where run: "run e (attach_argv dmg mountpoint) True w1 = (r, w2)"
    by (cases "run e (attach_argv dmg mountpoint) True w1")
  show ?thesis
  proof (cases r)
    case (Inl err)
    have "err \<noteq> ResolutionError"
      using run Inl by (auto simp: run_eq split: if_splits)
    with Inl run Inr show ?thesis
      by (simp add: hdiutil_attach_unfold attach_report_def)
  next
    case res: (Inr res)
    show ?thesis
    proof (cases "plist_loads e (stdout res)")
      case None
      with res run Inr show ?thesis
        by (simp add: hdiutil_attach_unfold attach_report_def)
    next
      case (Some pl')
      have rep: "attach_report e dmg mountpoint w = Some pl'"
        by (simp add: attach_report_def Inr run res Some)
      have att: "fst (hdiutil_attach e dmg mountpoint w) = attach_resolve pl'"
        by (simp add: hdiutil_attach_unfold Inr run res Some split: sum.splits)
      show ?thesis
        unfolding rep att attach_resolve_char
        by (auto simp: truthy_def split: option.splits)
    qed
  qed
qed


lemma mount_report_attached:
  "attach_report (mac image_tree) dmg_path (Some tmp_mnt) start = Some mount_report"
proof -
  have "prepared start (Some tmp_mnt)
          = Inr (start\<lparr>fs := Dir [(''Applications'', Dir []), (''tmp'', Dir [(''pokerok_mnt_1'', Dir [])])]\<rparr>)"
    by code_simp
  then show ?thesis
    by (simp add: attach_report_def run_eq mac_def mac_exec_def attach_argv_def attach_args_def
        ok_result_def)
qed

theorem hdiutil_attach_resolution_error_witness:
  "fst (hdiutil_attach (mac image_tree) dmg_path (Some tmp_mnt) start)
     = Inr ([''tmp'', ''pokerok_mnt_1''], ''/dev/disk4s1'')"
proof -
  have "last_mount_point (entities mount_report) = Some [''tmp'', ''pokerok_mnt_1'']"
    and "selected_device (entities mount_report) = Some ''/dev/disk4s1''"
    by code_simp+
  with hdiutil_attach_resolution_error
         [of "mac image_tree" dmg_path "Some tmp_mnt" start mount_report
             "[''tmp'', ''pokerok_mnt_1'']" "''/dev/disk4s1''"]
       mount_report_attached
  show ?thesis by simp
qed


subsection \<open>The path copy_app returns\<close>

text \<open>
  C10. Whenever \<^verbatim>\<open>copy_app\<close> returns, with or without \<^verbatim>\<open>dry_run\<close> and whatever the file
  system held, it returns the destination directory joined with the name of the source.
\<close>

theorem copy_app_returns_dest:
  assumes "copy_app app_src dest_dir dry_run w = (Inr p, w')"
  shows "p = path_join dest_dir (path_name app_src)"
proof -
  from assms obtain u1 :: unit and w1 where
    rest: "(let dest = path_join dest_dir (path_name app_src) in
             if dry_run then andthen (print (WouldCopy app_src dest)) (\<lambda>u. return dest)
             else andthen
               (\<lambda>w. if exists_path (fs w) dest
                   then (if is_dir (fs w) dest then fs_op (\<lambda>r. rmtree r dest) w
                         else fs_op (\<lambda>r. unlink r dest) w)
                   else return () w)
               (\<lambda>u. andthen (fs_op (\<lambda>r. copytree r app_src dest True)) (\<lambda>u. return dest))) w1
           = (Inr p, w')"
    unfolding copy_app_def by (blast dest: andthen_InrD)
  show ?thesis
  proof (cases dry_run)
    case True
    with rest show ?thesis
      by (auto simp: Let_def return_eq dest!: andthen_InrD)
  next
    case False
    with rest show ?thesis
      by (auto simp: Let_def return_eq dest!: andthen_InrD)
  qed
qed

subsection \<open>Sessions\<close>

lemma hdiutil_detach_trace:
  "trace (snd (hdiutil_detach e t w)) =
     trace w @ detach_cmd t
               # (if returncode (first_result e t w) = 0 then [] else [detach_force_cmd t])"
  by (simp add: hdiutil_detach_def run_eq first_result_def)

lemma hdiutil_detach_out: "out (snd (hdiutil_detach e t w)) = out w"
  by (simp add: hdiutil_detach_def run_eq)

lemma cleanup_eq:
  "fst (cleanup p w) = Inr ()" "trace (snd (cleanup p w)) = trace w"
  "out (snd (cleanup p w)) = out w"
  by (simp_all add: cleanup_def split: option.splits node.splits)

lemma try_finally_cleanup:
  "try_finally b (cleanup p) w = (fst (b w), snd (cleanup p (snd (b w))))"
proof -
  obtain u w' where c: "cleanup p (snd (b w)) = (Inr u, w')"
    using cleanup_eq(1)[of p "snd (b w)"] by (cases "cleanup p (snd (b w))") auto
  show ?thesis
    by (cases "b w") (use c in \<open>simp add: try_finally_def\<close>)
qed

lemma session_attach_fails:
  assumes "mkdtemp e w = (Inr tmp, w1)"
    and "hdiutil_attach e dmg (Some tmp) w1 = (Inl err, w2)"
  shows "fst (with_tmpdir e (\<lambda>tmp. andthen (hdiutil_attach e dmg (Some tmp))
            (\<lambda>(mp, dev). try_finally (body mp) (hdiutil_detach e dev))) w) = Inl err
       \<and> trace (snd (with_tmpdir e (\<lambda>tmp. andthen (hdiutil_attach e dmg (Some tmp))
            (\<lambda>(mp, dev). try_finally (body mp) (hdiutil_detach e dev))) w)) = trace w2"
  using assms
  by (simp add: with_tmpdir_def andthen_def try_finally_cleanup cleanup_eq)

lemma session_attach_ok:
  assumes "mkdtemp e w = (Inr tmp, w1)"
    and "hdiutil_attach e dmg (Some tmp) w1 = (Inr (mp, dev), w2)"
  shows "session_ends e dev (body mp w2)
           (with_tmpdir e (\<lambda>tmp. andthen (hdiutil_attach e dmg (Some tmp))
              (\<lambda>(mp, dev). try_finally (body mp) (hdiutil_detach e dev))) w)"
proof -
  obtain r w3 where b: "body mp w2 = (r, w3)"
    by (cases "body mp w2")
  obtain d w4 where d: "hdiutil_detach e dev w3 = (d, w4)"
    by (cases "hdiutil_detach e dev w3")
  have t: "trace w4 = trace w3 @ detach_cmd dev
                     # (if returncode (first_result e dev w3) = 0 then []
                        else [detach_force_cmd dev])"
    using hdiutil_detach_trace[of e dev w3] d by simp
  have inner: "try_finally (body mp) (hdiutil_detach e dev) w2
                 = (case d of Inl err \<Rightarrow> Inl err | Inr u \<Rightarrow> r, w4)"
    using b d by (simp add: try_finally_def split: sum.splits)
  show ?thesis
    using assms b d t
    by (simp add: session_ends_def with_tmpdir_def andthen_def try_finally_cleanup cleanup_eq
        inner)
qed

text \<open>
  C1. Once the temporary directory exists: when \<^verbatim>\<open>hdiutil_attach\<close> raises, each of
  \<^verbatim>\<open>cmd_list\<close>, \<^verbatim>\<open>cmd_copy\<close> and \<^verbatim>\<open>cmd_verify\<close> raises the same error and runs no command
  after the attach, so no detach; when it returns a device, whatever the \<^verbatim>\<open>try\<close> block
  does (return or raise), the detach of that device is the next command run, and the
  subcommand then ends as the block did, or with the error of the detach.
\<close>

theorem detach_on_every_exit:
  assumes "mkdtemp e w = (Inr tmp, w1)"
  shows "case hdiutil_attach e (arg_dmg a) (Some tmp) w1 of
           (Inl err, w2) \<Rightarrow>
             (fst (cmd_list e a w) = Inl err \<and> trace (snd (cmd_list e a w)) = trace w2)
             \<and> (fst (cmd_copy e a w) = Inl err \<and> trace (snd (cmd_copy e a w)) = trace w2)
             \<and> (fst (cmd_verify e a w) = Inl err \<and> trace (snd (cmd_verify e a w)) = trace w2)
         | (Inr (mp, dev), w2) \<Rightarrow>
             session_ends e dev (list_body mp w2) (cmd_list e a w)
             \<and> session_ends e dev (copy_body a mp w2) (cmd_copy e a w)
             \<and> session_ends e dev (verify_body e mp w2) (cmd_verify e a w)"
proof (cases "hdiutil_attach e (arg_dmg a) (Some tmp) w1")
  case (Pair r w2)
  show ?thesis
  proof (cases r)
    case (Inl err)
    with Pair have att: "hdiutil_attach e (arg_dmg a) (Some tmp) w1 = (Inl err, w2)"
      by simp
    show ?thesis
      unfolding att cmd_list_def cmd_copy_def cmd_verify_def
      using session_attach_fails[OF assms att, where body = list_body]
        session_attach_fails[OF assms att, where body = "copy_body a"]
        session_attach_fails[OF assms att, where body = "verify_body e"]
      by simp
  next
    case (Inr md)
    obtain mp dev where md: "md = (mp, dev)"
      by (cases md)
    with Pair Inr have att: "hdiutil_attach e (arg_dmg a) (Some tmp) w1 = (Inr (mp, dev), w2)"
      by simp
    show ?thesis
      unfolding att cmd_list_def cmd_copy_def cmd_verify_def
      using session_attach_ok[OF assms att, where body = list_body]
        session_attach_ok[OF assms att, where body = "copy_body a"]
        session_attach_ok[OF assms att, where body = "verify_body e"]
      by simp
  qed
qed


subsection \<open>The run on the small Mac\<close>

lemma mkdtemp_start: "mkdtemp (mac img) start = (Inr tmp_mnt, start_tmp)"
  by (simp add: mkdtemp_def mac_def start_def start_tmp_def tmp_mnt_def host_tree_def)

lemma attach_start:
  "hdiutil_attach (mac image_tree) dmg_path (Some tmp_mnt) start_tmp
     = (Inr (tmp_mnt, ''/dev/disk4s1''), attached image_tree)"
  by code_simp

lemma attach_start_empty:
  "hdiutil_attach (mac (Dir [])) dmg_path (Some tmp_mnt) start_tmp
     = (Inr (tmp_mnt, ''/dev/disk4s1''), attached (Dir []))"
  by code_simp

lemma found_app:
  "find_app_bundle (fs (attached image_tree)) tmp_mnt = Some (tmp_mnt @ [''Foo.app''])"
  by code_simp

theorem detach_on_every_exit_witness:
  "session_ends (mac (Dir [])) ''/dev/disk4s1''
     (Inl NotFoundError, attached (Dir [])) (cmd_copy (mac (Dir [])) empty_mac_args start)"
proof -
  have a: "arg_dmg empty_mac_args = dmg_path"
    by (simp add: empty_mac_args_def)
  have b: "copy_body empty_mac_args tmp_mnt (attached (Dir []))
             = (Inl NotFoundError, attached (Dir []))"
    by code_simp
  from detach_on_every_exit
         [OF mkdtemp_start [of "Dir []"], where a = empty_mac_args, unfolded a attach_start_empty]
  show ?thesis
    by (simp add: b)
qed


subsection \<open>The two checks\<close>

lemma spctl_assess_eq:
  "spctl_assess e p w =
     (Inr (returncode (fst (exec e w (spctl_cmd p))) = 0,
           diagnostic (fst (exec e w (spctl_cmd p)))),
      ran e (spctl_cmd p) w)"
  by (simp add: spctl_assess_def run_eq diagnostic_def ran_def)

lemma codesign_verify_eq:
  "codesign_verify e p w =
     (Inr (returncode (fst (exec e w (codesign_cmd p))) = 0,
           diagnostic (fst (exec e w (codesign_cmd p)))),
      ran e (codesign_cmd p) w)"
  by (simp add: codesign_verify_def run_eq diagnostic_def ran_def)

lemma verify_body_found:
  assumes "find_app_bundle (fs w) mp = Some ap"
  shows "verify_body e mp w =
           (Inr (),
            printed (Codesign (returncode (sign_result e ap w) = 0) (diagnostic (sign_result e ap w)))
              (ran e (codesign_cmd ap) (sign_world e ap w)))"
  using assms
  by (simp add: verify_body_def andthen_def print_def spctl_assess_eq codesign_verify_eq
      printed_def gate_world_def gate_result_def sign_world_def sign_result_def)

lemma verify_body_effects:
  assumes "find_app_bundle (fs w) mp = Some ap"
  shows "fst (verify_body e mp w) = Inr ()"
    and "trace (snd (verify_body e mp w)) = trace w @ [spctl_cmd ap, codesign_cmd ap]"
    and "out (snd (verify_body e mp w)) = out w @ verify_lines e ap w"
  by (simp_all add: verify_body_found[OF assms] printed_def ran_def sign_world_def gate_world_def
      verify_lines_def)

lemma session_out:
  assumes "mkdtemp e w = (Inr tmp, w1)"
    and "hdiutil_attach e dmg (Some tmp) w1 = (Inr (mp, dev), w2)"
  shows "out (snd (with_tmpdir e (\<lambda>tmp. andthen (hdiutil_attach e dmg (Some tmp))
              (\<lambda>(mp, dev). try_finally (body mp) (hdiutil_detach e dev))) w))
         = out (snd (body mp w2))"
proof -
  obtain r w3 where b: "body mp w2 = (r, w3)"
    by (cases "body mp w2")
  obtain d w4 where d: "hdiutil_detach e dev w3 = (d, w4)"
    by (cases "hdiutil_detach e dev w3")
  have o: "out w4 = out w3"
    using hdiutil_detach_out[of e dev w3] d by simp
  have inner: "try_finally (body mp) (hdiutil_detach e dev) w2
                 = (case d of Inl err \<Rightarrow> Inl err | Inr u \<Rightarrow> r, w4)"
    using b d by (simp add: try_finally_def split: sum.splits)
  show ?thesis
    using assms b o
    by (simp add: with_tmpdir_def andthen_def try_finally_cleanup cleanup_eq inner)
qed

text \<open>
  C7. \<^verbatim>\<open>spctl_assess\<close> and \<^verbatim>\<open>codesign_verify\<close> never raise: each returns whether the tool
  exited with status 0, and the message of that exit (after a zero exit the stripped
  standard error, or the stripped standard output when that is empty). So, once the
  image is attached and a bundle is found, the \<^verbatim>\<open>try\<close> block of \<^verbatim>\<open>cmd_verify\<close> returns, both
  tools are run, in this order and before the detach, and \<^verbatim>\<open>cmd_verify\<close> prints the line
  of each check, each with the verdict of its own tool.
\<close>

theorem checks_never_raise:
  assumes "mkdtemp e w = (Inr tmp, w1)"
    and "hdiutil_attach e (arg_dmg a) (Some tmp) w1 = (Inr (mp, dev), w2)"
    and "find_app_bundle (fs w2) mp = Some ap"
  shows "fst (spctl_assess e p v) =
           Inr (returncode (fst (exec e v (spctl_cmd p))) = 0,
                diagnostic (fst (exec e v (spctl_cmd p))))
       \<and> fst (codesign_verify e p v) =
           Inr (returncode (fst (exec e v (codesign_cmd p))) = 0,
                diagnostic (fst (exec e v (codesign_cmd p))))
       \<and> fst (verify_body e mp w2) = Inr ()
       \<and> trace (snd (verify_body e mp w2)) = trace w2 @ [spctl_cmd ap, codesign_cmd ap]
       \<and> out (snd (cmd_verify e a w)) = out w2 @ verify_lines e ap w2
       \<and> take 3 (drop (length (trace w2)) (trace (snd (cmd_verify e a w))))
           = [spctl_cmd ap, codesign_cmd ap, detach_cmd dev]"
proof -
  note vb = verify_body_effects[OF assms(3), of e]
  have o: "out (snd (cmd_verify e a w)) = out w2 @ verify_lines e ap w2"
    unfolding cmd_verify_def
    using session_out[OF assms(1,2), where body = "verify_body e"] vb(3) by simp
  have "session_ends e dev (verify_body e mp w2) (cmd_verify e a w)"
    unfolding cmd_verify_def
    using session_attach_ok[OF assms(1,2), where body = "verify_body e"] by simp
  then have t: "take 3 (drop (length (trace w2)) (trace (snd (cmd_verify e a w))))
           = [spctl_cmd ap, codesign_cmd ap, detach_cmd dev]"
    using vb(2) by (cases "verify_body e mp w2") (simp add: session_ends_def)
  show ?thesis
    using vb(1,2) o t by (simp add: spctl_assess_eq codesign_verify_eq)
qed

theorem checks_never_raise_witness:
  "out (snd (cmd_verify (mac image_tree) empty_mac_args start))
     = [Checking (tmp_mnt @ [''Foo.app'']), Gatekeeper False ''rejected'',
        Codesign True ''valid on disk'']"
proof -
  have a: "arg_dmg empty_mac_args = dmg_path"
    by (simp add: empty_mac_args_def)
  have l: "verify_lines (mac image_tree) (tmp_mnt @ [''Foo.app'']) (attached image_tree)
             = [Checking (tmp_mnt @ [''Foo.app'']), Gatekeeper False ''rejected'',
                Codesign True ''valid on disk'']"
    by code_simp
  have o: "out (attached image_tree) = []"
    by (simp add: attached_def)
  from checks_never_raise
         [OF mkdtemp_start [of image_tree], where a = empty_mac_args, unfolded a,
          OF attach_start found_app]
  show ?thesis
    by (simp add: l o)
qed


subsection \<open>Copying on the small Mac\<close>

text \<open>
  The hypothesis of C10 holds on the small Mac: with and without \<^verbatim>\<open>dry_run\<close> the copy of
  \<^verbatim>\<open>Foo.app\<close> to \<^verbatim>\<open>/Applications\<close> returns the same path.
\<close>

theorem copy_app_returns_dest_witness:
  "fst (copy_app foo_app [''Applications''] True (attached image_tree))
     = Inr (path_join [''Applications''] (path_name foo_app))
   \<and> fst (copy_app foo_app [''Applications''] False (attached image_tree))
     = Inr (path_join [''Applications''] (path_name foo_app))"
proof -
  have dry: "fst (copy_app foo_app [''Applications''] True (attached image_tree))
               = Inr [''Applications'', ''Foo.app'']"
    by code_simp
  have wet: "fst (copy_app foo_app [''Applications''] False (attached image_tree))
               = Inr [''Applications'', ''Foo.app'']"
    by code_simp
  have "copy_app foo_app [''Applications''] True (attached image_tree)
          = (Inr [''Applications'', ''Foo.app''],
             snd (copy_app foo_app [''Applications''] True (attached image_tree)))"
    using dry by (simp add: prod_eq_iff)
  from copy_app_returns_dest [OF this] dry wet show ?thesis
    by simp
qed

text \<open>
  C3 fails on the code. \<^verbatim>\<open>copy_app\<close> makes the destination directory before it looks at
  \<^verbatim>\<open>dry_run\<close>: on the small Mac, where \<^verbatim>\<open>/opt/apps\<close> does not exist, the dry run returns
  the would-be destination and prints its line, and has created \<^verbatim>\<open>/opt\<close> and \<^verbatim>\<open>/opt/apps\<close>.
\<close>

theorem dry_run_creates_destination_directory:
  "lookup (fs (attached image_tree)) [''opt'', ''apps''] = None
   \<and> copy_app foo_app [''opt'', ''apps''] True (attached image_tree)
       = (Inr [''opt'', ''apps'', ''Foo.app''],
          (attached image_tree)
            \<lparr>fs := Dir [(''Applications'', Dir []),
                        (''tmp'', Dir [(''pokerok_mnt_1'', image_tree)]),
                        (''opt'', Dir [(''apps'', Dir [])])],
             out := [WouldCopy foo_app [''opt'', ''apps'', ''Foo.app'']]\<rparr>)"
  by code_simp


subsection \<open>Listing the mount point\<close>

lemma resolve_not_link:
  assumes "lookup root p = Some n" and "\<And>t. n \<noteq> Symlink t"
  shows "resolve k root p = Some (p, n)"
proof (cases n)
  case (Symlink t)
  with assms(2) show ?thesis by blast
next
  case (File d)
  with assms(1) show ?thesis by (cases k) simp_all
next
  case (Dir cs)
  with assms(1) show ?thesis by (cases k) simp_all
qed

lemma stat_not_link:
  assumes "lookup root p = Some n" and "\<And>t. n \<noteq> Symlink t"
  shows "stat root p = Some n"
  by (simp add: stat_def resolve_not_link[OF assms])

lemma snoc_le_snoc: "(p @ [a] \<le> p @ [b]) \<longleftrightarrow> (a \<le> b)" for a b :: string
  by (induction p) auto

lemma map_insort_snoc:
  "map (\<lambda>n. p @ [n]) (insort x ys) = insort (p @ [x]) (map (\<lambda>n. p @ [n]) ys)"
  for x :: string
  by (induction ys) (simp_all add: snoc_le_snoc)

lemma sort_map_snoc:
  "sort (map (\<lambda>n. p @ [n]) ns) = map (\<lambda>n. p @ [n]) (sort ns)" for ns :: "string list"
  by (induction ns) (simp_all add: map_insort_snoc)

text \<open>
  C9. For a mount point that is a directory, \<^verbatim>\<open>list_top\<close> returns one line per child: the
  names of the children in ascending order (strings compared character by character),
  each behind \<^verbatim>\<open>[D]\<close> when the child is a directory (or a link to one) and \<^verbatim>\<open>[F]\<close>
  otherwise. For the children \<^verbatim>\<open>B\<close> (a file) and \<^verbatim>\<open>A\<close> (a directory) the result is
  \<^verbatim>\<open>["[D] A", "[F] B"]\<close>.
\<close>

theorem list_top_sorted_annotations:
  assumes "lookup root mp = Some (Dir cs)"
  shows "list_top root mp =
           Inr (map (\<lambda>n. (if is_dir root (mp @ [n]) then ''[D]'' else ''[F]'') @ '' '' @ n)
                  (sort (map fst cs)))"
proof -
  have "stat root mp = Some (Dir cs)"
    using assms by (simp add: stat_not_link)
  then have it: "iterdir root mp = Inr (map (\<lambda>(n, c). mp @ [n]) cs)"
    by (simp add: iterdir_def)
  have m: "map (\<lambda>(n, c). mp @ [n]) cs = map (\<lambda>n. mp @ [n]) (map fst cs)"
    by (simp add: case_prod_unfold)
  have "list_top root mp
          = Inr (map (annotate root) (sort (map (\<lambda>n. mp @ [n]) (map fst cs))))"
    unfolding list_top_def it m by (simp only: sum.case)
  also have "\<dots> = Inr (map (annotate root) (map (\<lambda>n. mp @ [n]) (sort (map fst cs))))"
    by (simp only: sort_map_snoc)
  finally show ?thesis
    by (simp add: annotate_def path_name_def comp_def)
qed

theorem list_top_sorted_annotations_witness:
  "list_top ab_tree [''mnt''] = Inr [''[D] A'', ''[F] B'']"
proof -
  have l: "lookup ab_tree [''mnt''] = Some (Dir [(''B'', File ''b''), (''A'', Dir [])])"
    by (simp add: ab_tree_def)
  have d: "is_dir ab_tree [''mnt'', ''A'']" "\<not> is_dir ab_tree [''mnt'', ''B'']"
    by code_simp+
  have s: "sort [''B'', ''A''] = [''A'', ''B'']"
    by code_simp
  from list_top_sorted_annotations [OF l] show ?thesis
    by (simp add: d s)
qed


subsection \<open>Finding the bundle\<close>

lemma lookup_append:
  "lookup n (p @ r) = (case lookup n p of None \<Rightarrow> None | Some m \<Rightarrow> lookup m r)"
proof (induction p arbitrary: n)
  case Nil
  show ?case by simp
next
  case (Cons c p)
  show ?case
    by (cases n) (simp_all add: Cons.IH split: option.splits)
qed














subsection \<open>Replacing the destination\<close>

lemma put_entry_Cons:
  "p \<noteq> [] \<Longrightarrow>
     put_entry (Dir cs) (a # p) n =
       (case map_of cs a of
          None \<Rightarrow> Dir cs
        | Some m \<Rightarrow> Dir (AList.update a (put_entry m p n) cs))"
  by (cases p) (simp_all split: option.splits)

lemma remove_entry_Cons:
  "p \<noteq> [] \<Longrightarrow>
     remove_entry (Dir cs) (a # p) =
       (case map_of cs a of
          None \<Rightarrow> Dir cs
        | Some m \<Rightarrow> Dir (AList.update a (remove_entry m p) cs))"
  by (cases p) (simp_all split: option.splits)

lemma lookup_Cons_SomeD:
  assumes "lookup r (a # p) = Some n"
  obtains cs m where "r = Dir cs" and "map_of cs a = Some m" and "lookup m p = Some n"
  using assms by (cases r) (auto split: option.splits)

lemma lookup_put_parent:
  "lookup r p = Some (Dir ds) \<Longrightarrow>
     lookup (put_entry r (p @ [c]) n) p = Some (Dir (AList.update c n ds))"
proof (induction p arbitrary: r)
  case Nil
  then show ?case by simp
next
  case (Cons a p)
  from Cons.prems obtain cs m where
    r: "r = Dir cs" "map_of cs a = Some m" "lookup m p = Some (Dir ds)"
    by (rule lookup_Cons_SomeD)
  have "put_entry r (a # (p @ [c])) n = Dir (AList.update a (put_entry m (p @ [c]) n) cs)"
    by (simp add: r put_entry_Cons)
  then show ?case
    by (simp add: update_conv' Cons.IH[OF r(3)])
qed

lemma lookup_put_same:
  assumes "lookup r p = Some (Dir ds)"
  shows "lookup (put_entry r (p @ [c]) n) (p @ [c]) = Some n"
  by (simp add: lookup_append lookup_put_parent[OF assms] update_conv')

lemma lookup_remove_parent:
  "lookup r p = Some (Dir ds) \<Longrightarrow>
     lookup (remove_entry r (p @ [c])) p = Some (Dir (AList.delete c ds))"
proof (induction p arbitrary: r)
  case Nil
  then show ?case by simp
next
  case (Cons a p)
  from Cons.prems obtain cs m where
    r: "r = Dir cs" "map_of cs a = Some m" "lookup m p = Some (Dir ds)"
    by (rule lookup_Cons_SomeD)
  have "remove_entry r (a # (p @ [c])) = Dir (AList.update a (remove_entry m (p @ [c])) cs)"
    by (simp add: r remove_entry_Cons)
  then show ?case
    by (simp add: update_conv' Cons.IH[OF r(3)])
qed

lemma lookup_remove_same:
  assumes "lookup r p = Some (Dir ds)"
  shows "lookup (remove_entry r (p @ [c])) (p @ [c]) = None"
  by (simp add: lookup_append lookup_remove_parent[OF assms] delete_conv')

lemma lookup_remove_other:
  "\<not> prefix (p @ [c]) q \<Longrightarrow> \<not> prefix q (p @ [c]) \<Longrightarrow>
     lookup (remove_entry r (p @ [c])) q = lookup r q"
proof (induction p arbitrary: r q)
  case Nil
  from Nil.prems obtain a q' where q: "q = a # q'" "a \<noteq> c"
    by (cases q) auto
  show ?case
    by (cases r) (simp_all add: q)
next
  case (Cons b p)
  from Cons.prems(2) obtain a q' where q: "q = a # q'"
    by (cases q) auto
  show ?case
  proof (cases r)
    case (Dir cs)
    show ?thesis
    proof (cases "map_of cs b")
      case None
      then show ?thesis
        by (simp add: Dir remove_entry_Cons)
    next
      case (Some m)
      have rm: "remove_entry (Dir cs) (b # p @ [c])
                  = Dir (AList.update b (remove_entry m (p @ [c])) cs)"
        by (simp add: Some remove_entry_Cons)
      show ?thesis
      proof (cases "a = b")
        case True
        with Cons.prems q have "\<not> prefix (p @ [c]) q'" "\<not> prefix q' (p @ [c])"
          by simp_all
        then have "lookup (remove_entry m (p @ [c])) q' = lookup m q'"
          by (rule Cons.IH)
        then show ?thesis
          using True by (simp add: rm q update_conv' Dir Some)
      next
        case False
        then show ?thesis
          by (simp add: rm q update_conv' Dir)
      qed
    qed
  next
    case (File d)
    then show ?thesis by simp
  next
    case (Symlink t)
    then show ?thesis by simp
  qed
qed

lemma lookup_snoc_SomeD:
  assumes "lookup r (p @ [c]) = Some n"
  obtains ds where "lookup r p = Some (Dir ds)" and "map_of ds c = Some n"
proof -
  from assms obtain m where m: "lookup r p = Some m" "lookup m [c] = Some n"
    by (auto simp: lookup_append split: option.splits)
  from m(2) obtain ds where "m = Dir ds" "map_of ds c = Some n"
    by (cases m) (auto split: option.splits)
  with m(1) that show ?thesis by simp
qed


lemma copy_links_kept:
  "copy_node True k root n = Some n" "copy_entries True k root cs = Some cs"
  by (induction True k root n and True k root cs rule: copy_node_copy_entries.induct) simp_all

lemma mkdir_p_existing:
  assumes "lookup root p = Some (Dir ds)"
  shows "mkdir_p root p = Inr root"
proof -
  have "is_dir root p"
    using assms by (simp add: is_dir_def stat_not_link)
  with assms show ?thesis
    by (subst mkdir_p.simps) simp
qed

lemma mkdir_p_child:
  assumes "lookup root p = Some (Dir ds)" and "lookup root (p @ [c]) = None"
  shows "mkdir_p root (p @ [c]) = Inr (put_entry root (p @ [c]) (Dir []))"
  using assms by (subst mkdir_p.simps) simp

text \<open>
  What \<^verbatim>\<open>copy_app\<close> does for the entries it handles. Let the bundle be a directory, and
  let the destination (the destination directory joined with the name of the bundle)
  hold a directory or a regular file, neither inside the bundle nor around it. Then
  \<^verbatim>\<open>copy_app\<close> without \<^verbatim>\<open>dry_run\<close> returns the destination, and the entry there is
  afterwards the tree of the bundle and nothing else: what was there is gone, and, as
  \<^verbatim>\<open>copytree\<close> is called with \<^verbatim>\<open>symlinks=True\<close>, the links in the bundle are links in the
  copy.
\<close>

theorem copy_app_replaces_destination:
  assumes src: "lookup (fs w) app_src = Some (Dir cs)"
    and name: "path_name app_src \<noteq> []"
    and old: "lookup (fs w) (dest_dir @ [path_name app_src]) = Some old"
    and kind: "\<not> is_symlink old"
    and apart: "\<not> prefix (dest_dir @ [path_name app_src]) app_src"
               "\<not> prefix app_src (dest_dir @ [path_name app_src])"
  shows "fst (copy_app app_src dest_dir False w) = Inr (dest_dir @ [path_name app_src])
       \<and> lookup (fs (snd (copy_app app_src dest_dir False w))) (dest_dir @ [path_name app_src])
           = Some (Dir cs)"
proof -
  define dest where "dest = dest_dir @ [path_name app_src]"
  define f1 where "f1 = remove_entry (fs w) dest"
  define f3 where "f3 = put_entry (put_entry f1 dest (Dir [])) dest (Dir cs)"
  have pj: "path_join dest_dir (path_name app_src) = dest"
    using name by (simp add: path_join_def dest_def)
  from old obtain ds where par: "lookup (fs w) dest_dir = Some (Dir ds)"
    by (rule lookup_snoc_SomeD)
  have nolink: "old \<noteq> Symlink t" for t
    using kind by (auto simp: is_symlink_def)
  have step1: "fs_op (\<lambda>r. mkdir_p r dest_dir) w = (Inr (), w)"
    by (simp add: fs_op_def mkdir_p_existing[OF par])
  have st: "stat (fs w) dest = Some old"
    using old nolink unfolding dest_def by (rule stat_not_link)
  have ex: "exists_path (fs w) dest"
    by (simp add: exists_path_def st)
  have ne: "dest \<noteq> []"
    by (simp add: dest_def)
  have step2: "(if is_dir (fs w) dest then fs_op (\<lambda>r. rmtree r dest) w
                else fs_op (\<lambda>r. unlink r dest) w) = (Inr (), w\<lparr>fs := f1\<rparr>)"
  proof (cases old)
    case (Dir xs)
    with st old ne show ?thesis
      by (simp add: is_dir_def fs_op_def rmtree_def f1_def dest_def)
  next
    case (File d)
    with st old show ?thesis
      by (simp add: is_dir_def fs_op_def unlink_def f1_def dest_def)
  next
    case (Symlink t)
    with kind show ?thesis by (simp add: is_symlink_def)
  qed
  have src1: "lookup f1 app_src = Some (Dir cs)"
    unfolding f1_def dest_def using apart src by (simp add: lookup_remove_other)
  have none1: "lookup f1 dest = None"
    unfolding f1_def dest_def by (rule lookup_remove_same[OF par])
  have par1: "lookup f1 dest_dir = Some (Dir (AList.delete (path_name app_src) ds))"
    unfolding f1_def dest_def by (rule lookup_remove_parent[OF par])
  have mk1: "mkdir_p f1 dest = Inr (put_entry f1 dest (Dir []))"
    unfolding dest_def by (rule mkdir_p_child[OF par1 none1[unfolded dest_def]])
  have rs: "resolve MAXSYMLINKS f1 app_src = Some (app_src, Dir cs)"
    using src1 by (simp add: resolve_not_link)
  have apart': "\<not> prefix app_src dest"
    using apart(2) by (simp add: dest_def)
  have ct: "copytree f1 app_src dest True = Inr f3"
    by (simp add: copytree_def rs makedirs_def none1 mk1 f3_def apart' copy_links_kept)
  have step3: "fs_op (\<lambda>r. copytree r app_src dest True) (w\<lparr>fs := f1\<rparr>) = (Inr (), w\<lparr>fs := f3\<rparr>)"
    by (simp add: fs_op_def ct)
  have all: "copy_app app_src dest_dir False w = (Inr dest, w\<lparr>fs := f3\<rparr>)"
    by (simp add: copy_app_def andthen_def Let_def pj step1 ex step2 step3 return_def)
  have "lookup (put_entry f1 dest (Dir [])) dest_dir
          = Some (Dir (AList.update (path_name app_src) (Dir []) (AList.delete (path_name app_src) ds)))"
    unfolding dest_def by (rule lookup_put_parent[OF par1])
  then have "lookup f3 dest = Some (Dir cs)"
    unfolding f3_def dest_def by (rule lookup_put_same)
  with all show ?thesis
    by (simp add: dest_def)
qed


theorem copy_app_replaces_destination_witness:
  "fst (copy_app foo_app [''Applications''] False stale_mac) = Inr [''Applications'', ''Foo.app'']
   \<and> lookup (fs (snd (copy_app foo_app [''Applications''] False stale_mac)))
         [''Applications'', ''Foo.app'']
       = Some (Dir [(''Info.plist'', File ''plist''), (''Current'', Symlink [''A''])])"
proof -
  have n: "path_name foo_app = ''Foo.app''"
    by code_simp
  have src: "lookup (fs stale_mac) foo_app
               = Some (Dir [(''Info.plist'', File ''plist''), (''Current'', Symlink [''A''])])"
    by code_simp
  have name: "path_name foo_app \<noteq> []"
    by (simp add: n)
  have old: "lookup (fs stale_mac) ([''Applications''] @ [path_name foo_app])
               = Some (Dir [(''old.txt'', File ''stale'')])"
    by code_simp
  have kind: "\<not> is_symlink (Dir [(''old.txt'', File ''stale'')])"
    by (simp add: is_symlink_def)
  have apart: "\<not> prefix ([''Applications''] @ [path_name foo_app]) foo_app"
    "\<not> prefix foo_app ([''Applications''] @ [path_name foo_app])"
    by code_simp+
  from copy_app_replaces_destination [OF src name old kind apart] show ?thesis
    by (simp add: n)
qed


text \<open>
  C8 fails on the code. \<^verbatim>\<open>copy_app\<close> looks at the destination with \<^verbatim>\<open>exists\<close> and \<^verbatim>\<open>is_dir\<close>,
  which follow links. Where the destination is a link to a directory, \<^verbatim>\<open>shutil.rmtree\<close>
  refuses the link and \<^verbatim>\<open>copy_app\<close> raises; where it is a link to nothing, the entry is
  taken not to exist and \<^verbatim>\<open>shutil.copytree\<close> raises. In both cases the old entry stays
  and nothing is copied.
\<close>

theorem copy_app_fails_on_linked_destination:
  "copy_app foo_app [''Applications''] False linked_mac = (Inl OSError, linked_mac)
   \<and> copy_app foo_app [''Applications''] False dangling_mac = (Inl FileExistsError, dangling_mac)"
  by code_simp

end
